theory Spec2Isabelle
  imports Complex_Main "HOL-Library.Word" "HOL-Library.Sublist"
begin

unbundle bit_operations_syntax

section \<open>Python values used by the notebook\<close>

subsection \<open>Floats\<close>

text \<open>
  A Python \<open>float\<close> is an IEEE 754 binary64 value. It is modelled by its 64 bits: bit 63 is
  the sign, bits 62..52 the biased exponent and bits 51..0 the fraction. The workflow never
  computes with floats; it only compares one with zero (\<open>x > 0\<close>), takes its truth value
  (\<open>if x\<close>) and copies it. Both tests are decided by the bit pattern, including the two
  zeros, the infinities and NaN.
\<close>

type_synonym pyfloat = "64 word"

definition float_sign :: "pyfloat \<Rightarrow> bool" where
  "float_sign x = bit x 63"

definition float_exponent :: "pyfloat \<Rightarrow> nat" where
  "float_exponent x = unat (take_bit 11 (drop_bit 52 x))"

definition float_mantissa :: "pyfloat \<Rightarrow> nat" where
  "float_mantissa x = unat (take_bit 52 x)"

definition float_is_nan :: "pyfloat \<Rightarrow> bool" where
  "float_is_nan x = (float_exponent x = 2047 \<and> float_mantissa x \<noteq> 0)"

definition float_is_zero :: "pyfloat \<Rightarrow> bool" where
  "float_is_zero x = (float_exponent x = 0 \<and> float_mantissa x = 0)"

text \<open>\<open>x > 0\<close>: false for NaN, for both zeros and for every value with the sign bit set.\<close>

definition float_gt_zero :: "pyfloat \<Rightarrow> bool" where
  "float_gt_zero x = (\<not> float_is_nan x \<and> \<not> float_is_zero x \<and> \<not> float_sign x)"

text \<open>\<open>bool(x)\<close>, that is \<open>x != 0.0\<close>: false exactly for \<open>0.0\<close> and \<open>-0.0\<close>; NaN is true.\<close>

definition float_bool :: "pyfloat \<Rightarrow> bool" where
  "float_bool x = (\<not> float_is_zero x)"

text \<open>The literal \<open>0.0\<close>.\<close>

definition float_0 :: pyfloat where
  "float_0 = 0"

text \<open>The real number a finite float stands for (used only to read the constants below).\<close>

definition float_value :: "pyfloat \<Rightarrow> real" where
  "float_value x =
     (if float_sign x then - 1 else 1) *
     (if float_exponent x = 0 then real (float_mantissa x) / 2 ^ 1074
      else if 1075 \<le> float_exponent x
        then real (2 ^ 52 + float_mantissa x) * 2 ^ (float_exponent x - 1075)
        else real (2 ^ 52 + float_mantissa x) / 2 ^ (1075 - float_exponent x))"

definition float_1 :: pyfloat where
  "float_1 = 0x3FF0000000000000"

definition float_500 :: pyfloat where
  "float_500 = 0x407F400000000000"

definition float_1000 :: pyfloat where
  "float_1000 = 0x408F400000000000"

definition float_1500 :: pyfloat where
  "float_1500 = 0x4097700000000000"

definition float_neg_0 :: pyfloat where
  "float_neg_0 = 0x8000000000000000"

definition float_nan :: pyfloat where
  "float_nan = 0x7FF8000000000000"

subsection \<open>Strings\<close>

text \<open>
  \<open>str.lower()\<close>, on text held as UTF-8 bytes. The letters \<open>A\<close>..\<open>Z\<close> are lower-cased
  and every other byte is kept. Python also lower-cases letters outside ASCII; their
  lower-case forms are again outside ASCII, but for U+0130 and U+212A, which give \<open>i\<close> and
  \<open>k\<close>. So whether the ASCII keyword searched for below occurs in the result is the same
  here and in Python.
\<close>

definition lower_char :: "char \<Rightarrow> char" where
  "lower_char c =
     (case map_of (zip ''ABCDEFGHIJKLMNOPQRSTUVWXYZ'' ''abcdefghijklmnopqrstuvwxyz'') c of
        None \<Rightarrow> c
      | Some l \<Rightarrow> l)"

definition str_lower :: "string \<Rightarrow> string" where
  "str_lower s = map lower_char s"

text \<open>\<open>sub in s\<close> for strings: \<open>sub\<close> occurs in \<open>s\<close> as a contiguous run.\<close>

fun str_contains :: "string \<Rightarrow> string \<Rightarrow> bool" where
  "str_contains sub [] = (sub = [])"
| "str_contains sub (c # cs) = (prefix sub (c # cs) \<or> str_contains sub cs)"

text \<open>\<open>sep.join(parts)\<close>.\<close>

fun str_join :: "string \<Rightarrow> string list \<Rightarrow> string" where
  "str_join sep [] = []"
| "str_join sep [x] = x"
| "str_join sep (x # y # ys) = x @ sep @ str_join sep (y # ys)"

subsection \<open>Loaded JSON\<close>

text \<open>The objects \<open>json.load\<close> builds: a \<open>dict\<close> is kept as its list of items.\<close>

datatype json =
    JNull
  | JBool bool
  | JInt int
  | JFloat pyfloat
  | JStr string
  | JList "json list"
  | JDict "(string \<times> json) list"

subsection \<open>Dictionaries that keep insertion order\<close>

text \<open>
  \<open>d[k] = v\<close> on a Python \<open>dict\<close>: a key already present keeps its position and takes the
  new value, a new key goes to the end.
\<close>

fun dict_set :: "('k \<times> 'v) list \<Rightarrow> 'k \<Rightarrow> 'v \<Rightarrow> ('k \<times> 'v) list" where
  "dict_set [] k v = [(k, v)]"
| "dict_set ((k', v') # kvs) k v =
     (if k' = k then (k, v) # kvs else (k', v') # dict_set kvs k v)"

definition dict_values :: "('k \<times> 'v) list \<Rightarrow> 'v list" where
  "dict_values d = map snd d"

section \<open>Schemas\<close>

record ClaimInfo =
  claim_number :: string
  policy_number :: string
  claimant_name :: string
  date_of_loss :: string
  loss_description :: string
  estimated_repair_cost :: pyfloat
  vehicle_details :: "string option"

record PolicyQueries =
  queries :: "string list"

record PolicyRecommendation =
  policy_section :: string
  recommendation_summary :: string
  deductible :: "pyfloat option"
  settlement_amount :: "pyfloat option"

text \<open>The field \<open>notes\<close> of \<open>ClaimDecision\<close> is \<open>decision_notes\<close> here.\<close>

record ClaimDecision =
  claim_number :: string
  covered :: bool
  deductible :: pyfloat
  recommended_payout :: pyfloat
  decision_notes :: "string option"

text \<open>A retrieved node: its \<open>id_\<close> (here \<open>node_id\<close>) and the text \<open>get_content()\<close> returns.\<close>

record NodeWithScore =
  node_id :: string
  get_content :: string

section \<open>Errors, events and the run context\<close>

text \<open>
  The exceptions, named after what Python raises. A step that raises ends the run with the
  engine's \<open>WorkflowRuntimeError\<close>, which holds the step's exception as its cause.
\<close>

datatype error =
    OSError
  | UnicodeDecodeError
  | JSONDecodeError
  | ValidationError
  | LLMError
  | RetrieverError
  | IndexError
  | ValueError
  | WorkflowRuntimeError error
  | WorkflowValidationError

datatype event =
    StartEvent string
  | ClaimInfoEvent ClaimInfo
  | PolicyQueryEvent PolicyQueries
  | PolicyMatchedEvent string
  | RecommendationEvent PolicyRecommendation
  | DecisionEvent ClaimDecision
  | StopEvent ClaimDecision

text \<open>
  The workflow \<open>Context\<close>, with the two keys the steps set: \<open>"claim_info"\<close> and
  \<open>"policy_text"\<close>. \<open>ctx.get\<close> of a key that was never set raises \<open>ValueError\<close>.
\<close>

record Context =
  ctx_claim_info :: "ClaimInfo option"
  ctx_policy_text :: "string option"

definition ctx_get_claim_info :: "Context \<Rightarrow> error + ClaimInfo" where
  "ctx_get_claim_info ctx =
     (case ctx_claim_info ctx of None \<Rightarrow> Inl ValueError | Some ci \<Rightarrow> Inr ci)"

text \<open>
  What the run is given from outside. \<open>Inl\<close> holds the exception a call raises, \<open>None\<close>
  stands for a call raising.
  \<^item> \<open>read_text\<close>: \<open>open(file_path, "r")\<close> and reading the file as text, which may raise
    \<open>OSError\<close>, \<open>UnicodeDecodeError\<close> or \<open>ValueError\<close>;
  \<^item> \<open>json_loads\<close>: the JSON parser behind \<open>json.load\<close>, which may raise
    \<open>JSONDecodeError\<close>;
  \<^item> \<open>float_of_int\<close>, \<open>float_of_str\<close>: the float an integer converts to, and the float
    a string is read as by the schema validator, if any;
  \<^item> \<open>llm_queries\<close>, \<open>llm_recommendation\<close>: the two \<open>astructured_predict\<close> calls, giving
    the structured output before it is validated against the schema;
  \<^item> \<open>policy_retriever\<close>: \<open>policy_retriever.aretrieve(query)\<close>;
  \<^item> \<open>declarations_retriever\<close>: the retriever \<open>get_declarations_docs\<close> builds, filtered by
    the policy number.
\<close>

record env =
  read_text :: "string \<Rightarrow> error + string"
  json_loads :: "string \<Rightarrow> error + json"
  float_of_int :: "int \<Rightarrow> pyfloat option"
  float_of_str :: "string \<Rightarrow> pyfloat option"
  llm_queries :: "ClaimInfo \<Rightarrow> json option"
  llm_recommendation :: "ClaimInfo \<Rightarrow> string \<Rightarrow> json option"
  policy_retriever :: "string \<Rightarrow> NodeWithScore list option"
  declarations_retriever :: "string \<Rightarrow> NodeWithScore list option"

section \<open>Schema validation\<close>

text \<open>
  \<open>model_validate\<close> of the three schemas, field by field. The argument of a field validator
  is the entry of the input dictionary under the field's name, \<open>None\<close> when the key is
  missing. Validation is lax, the default. A \<open>str\<close> field takes a string and nothing
  else. A \<open>float\<close> field takes a float as it is, converts an integer, takes \<open>True\<close> as
  \<open>1.0\<close> and \<open>False\<close> as \<open>0.0\<close>, reads a string as a number when it can, and rejects
  the rest. A field declared \<open>Optional\<close> with default \<open>None\<close> may be missing or null. Keys
  that are not fields are ignored.
\<close>

definition validate_str :: "json option \<Rightarrow> string option" where
  "validate_str v = (case v of Some (JStr s) \<Rightarrow> Some s | _ \<Rightarrow> None)"

definition validate_optional_str :: "json option \<Rightarrow> string option option" where
  "validate_optional_str v =
     (case v of
        None \<Rightarrow> Some None
      | Some JNull \<Rightarrow> Some None
      | Some (JStr s) \<Rightarrow> Some (Some s)
      | _ \<Rightarrow> None)"

definition validate_float :: "env \<Rightarrow> json option \<Rightarrow> pyfloat option" where
  "validate_float env v =
     (case v of
        Some (JFloat x) \<Rightarrow> Some x
      | Some (JInt i) \<Rightarrow> float_of_int env i
      | Some (JBool b) \<Rightarrow> Some (if b then float_1 else float_0)
      | Some (JStr s) \<Rightarrow> float_of_str env s
      | _ \<Rightarrow> None)"

definition validate_optional_float :: "env \<Rightarrow> json option \<Rightarrow> pyfloat option option" where
  "validate_optional_float env v =
     (case v of
        None \<Rightarrow> Some None
      | Some JNull \<Rightarrow> Some None
      | Some x \<Rightarrow> map_option Some (validate_float env (Some x)))"

fun validate_str_list :: "json list \<Rightarrow> string list option" where
  "validate_str_list [] = Some []"
| "validate_str_list (JStr s # xs) = map_option ((#) s) (validate_str_list xs)"
| "validate_str_list (_ # xs) = None"

definition ClaimInfo_model_validate :: "env \<Rightarrow> json \<Rightarrow> error + ClaimInfo" where
  "ClaimInfo_model_validate env data =
     (case data of
        JDict items \<Rightarrow>
          (case (validate_str (map_of items ''claim_number''),
                 validate_str (map_of items ''policy_number''),
                 validate_str (map_of items ''claimant_name''),
                 validate_str (map_of items ''date_of_loss''),
                 validate_str (map_of items ''loss_description''),
                 validate_float env (map_of items ''estimated_repair_cost''),
                 validate_optional_str (map_of items ''vehicle_details'')) of
             (Some cn, Some pn, Some nm, Some dl, Some ld, Some rc, Some vd) \<Rightarrow>
               Inr \<lparr>ClaimInfo.claim_number = cn, policy_number = pn, claimant_name = nm,
                    date_of_loss = dl, loss_description = ld, estimated_repair_cost = rc,
                    vehicle_details = vd\<rparr>
           | _ \<Rightarrow> Inl ValidationError)
      | _ \<Rightarrow> Inl ValidationError)"

definition PolicyQueries_model_validate :: "json \<Rightarrow> error + PolicyQueries" where
  "PolicyQueries_model_validate data =
     (case data of
        JDict items \<Rightarrow>
          (case map_of items ''queries'' of
             None \<Rightarrow> Inr \<lparr>queries = []\<rparr>
           | Some (JList xs) \<Rightarrow>
               (case validate_str_list xs of
                  None \<Rightarrow> Inl ValidationError
                | Some qs \<Rightarrow> Inr \<lparr>queries = qs\<rparr>)
           | Some _ \<Rightarrow> Inl ValidationError)
      | _ \<Rightarrow> Inl ValidationError)"

definition PolicyRecommendation_model_validate ::
    "env \<Rightarrow> json \<Rightarrow> error + PolicyRecommendation" where
  "PolicyRecommendation_model_validate env data =
     (case data of
        JDict items \<Rightarrow>
          (case (validate_str (map_of items ''policy_section''),
                 validate_str (map_of items ''recommendation_summary''),
                 validate_optional_float env (map_of items ''deductible''),
                 validate_optional_float env (map_of items ''settlement_amount'')) of
             (Some ps, Some rs, Some dd, Some sa) \<Rightarrow>
               Inr \<lparr>policy_section = ps, recommendation_summary = rs,
                    PolicyRecommendation.deductible = dd, settlement_amount = sa\<rparr>
           | _ \<Rightarrow> Inl ValidationError)
      | _ \<Rightarrow> Inl ValidationError)"

section \<open>Loading the claim and looking up declarations\<close>

definition parse_claim :: "env \<Rightarrow> string \<Rightarrow> error + ClaimInfo" where
  "parse_claim env file_path =
     (case read_text env file_path of
        Inl e \<Rightarrow> Inl e
      | Inr text \<Rightarrow>
          (case json_loads env text of
             Inl e \<Rightarrow> Inl e
           | Inr data \<Rightarrow> ClaimInfo_model_validate env data))"

definition get_declarations_docs :: "env \<Rightarrow> string \<Rightarrow> NodeWithScore list option" where
  "get_declarations_docs env policy_num = declarations_retriever env policy_num"

section \<open>The steps of AutoInsuranceWorkflow\<close>

text \<open>
  A step takes the context and the event it is declared for and returns the context and the
  event it emits, or the exception it raises. The log events written when the workflow is
  verbose go to a stream nothing reads back, and are left out.
\<close>

definition load_claim_info :: "env \<Rightarrow> Context \<Rightarrow> string \<Rightarrow> error + Context \<times> event" where
  "load_claim_info env ctx claim_json_path =
     (case parse_claim env claim_json_path of
        Inl e \<Rightarrow> Inl e
      | Inr claim_info \<Rightarrow>
          Inr (ctx\<lparr>ctx_claim_info := Some claim_info\<rparr>, ClaimInfoEvent claim_info))"

definition generate_policy_queries ::
    "env \<Rightarrow> Context \<Rightarrow> ClaimInfo \<Rightarrow> error + Context \<times> event" where
  "generate_policy_queries env ctx claim_info =
     (case llm_queries env claim_info of
        None \<Rightarrow> Inl LLMError
      | Some out \<Rightarrow>
          (case PolicyQueries_model_validate out of
             Inl e \<Rightarrow> Inl e
           | Inr qs \<Rightarrow> Inr (ctx, PolicyQueryEvent qs)))"

text \<open>The inner loop \<open>for d in docs: combined_docs[d.id_] = d\<close>.\<close>

fun add_docs ::
    "(string \<times> NodeWithScore) list \<Rightarrow> NodeWithScore list \<Rightarrow> (string \<times> NodeWithScore) list" where
  "add_docs combined_docs [] = combined_docs"
| "add_docs combined_docs (d # docs) = add_docs (dict_set combined_docs (node_id d) d) docs"

text \<open>The outer loop over the queries; a retriever that raises ends it.\<close>

fun retrieve_queries ::
    "env \<Rightarrow> (string \<times> NodeWithScore) list \<Rightarrow> string list \<Rightarrow>
       error + (string \<times> NodeWithScore) list" where
  "retrieve_queries env combined_docs [] = Inr combined_docs"
| "retrieve_queries env combined_docs (query # rest) =
     (case policy_retriever env query of
        None \<Rightarrow> Inl RetrieverError
      | Some docs \<Rightarrow> retrieve_queries env (add_docs combined_docs docs) rest)"

definition retrieve_policy_text ::
    "env \<Rightarrow> Context \<Rightarrow> PolicyQueries \<Rightarrow> error + Context \<times> event" where
  "retrieve_policy_text env ctx qs =
     (case ctx_get_claim_info ctx of
        Inl e \<Rightarrow> Inl e
      | Inr claim_info \<Rightarrow>
          (case retrieve_queries env [] (queries qs) of
             Inl e \<Rightarrow> Inl e
           | Inr combined_docs \<Rightarrow>
               (case get_declarations_docs env (policy_number claim_info) of
                  None \<Rightarrow> Inl RetrieverError
                | Some [] \<Rightarrow> Inl IndexError
                | Some (d_doc # _) \<Rightarrow>
                    (let combined_docs' = dict_set combined_docs (node_id d_doc) d_doc;
                         policy_text =
                           str_join [CHR 0x0A, CHR 0x0A]
                             (map get_content (dict_values combined_docs'))
                     in Inr (ctx\<lparr>ctx_policy_text := Some policy_text\<rparr>,
                             PolicyMatchedEvent policy_text)))))"

definition generate_recommendation ::
    "env \<Rightarrow> Context \<Rightarrow> string \<Rightarrow> error + Context \<times> event" where
  "generate_recommendation env ctx policy_text =
     (case ctx_get_claim_info ctx of
        Inl e \<Rightarrow> Inl e
      | Inr claim_info \<Rightarrow>
          (case llm_recommendation env claim_info policy_text of
             None \<Rightarrow> Inl LLMError
           | Some out \<Rightarrow>
               (case PolicyRecommendation_model_validate env out of
                  Inl e \<Rightarrow> Inl e
                | Inr recommendation \<Rightarrow> Inr (ctx, RecommendationEvent recommendation))))"

definition finalize_decision ::
    "Context \<Rightarrow> PolicyRecommendation \<Rightarrow> error + Context \<times> event" where
  "finalize_decision ctx rec =
     (case ctx_get_claim_info ctx of
        Inl e \<Rightarrow> Inl e
      | Inr claim_info \<Rightarrow>
          (let covered' =
                 (str_contains ''covered'' (str_lower (recommendation_summary rec))
                  \<or> (case settlement_amount rec of
                        None \<Rightarrow> False
                      | Some x \<Rightarrow> float_gt_zero x));
               deductible' =
                 (case PolicyRecommendation.deductible rec of
                    Some x \<Rightarrow> x
                  | None \<Rightarrow> float_0);
               recommended_payout' =
                 (case settlement_amount rec of
                    None \<Rightarrow> float_0
                  | Some x \<Rightarrow> if float_bool x then x else float_0);
               decision =
                 \<lparr>ClaimDecision.claim_number = ClaimInfo.claim_number claim_info,
                  covered = covered',
                  ClaimDecision.deductible = deductible',
                  recommended_payout = recommended_payout',
                  decision_notes = Some (recommendation_summary rec)\<rparr>
           in Inr (ctx, DecisionEvent decision)))"

definition output_result :: "Context \<Rightarrow> ClaimDecision \<Rightarrow> error + Context \<times> event" where
  "output_result ctx decision = Inr (ctx, StopEvent decision)"

section \<open>The workflow engine\<close>

text \<open>
  The engine hands an event to the step whose parameter is annotated with the event's class.
  No step of this workflow takes a \<open>StopEvent\<close>: it ends the run and carries the result.
\<close>

fun dispatch :: "env \<Rightarrow> Context \<Rightarrow> event \<Rightarrow> (error + Context \<times> event) option" where
  "dispatch env ctx (StartEvent claim_json_path) =
     Some (load_claim_info env ctx claim_json_path)"
| "dispatch env ctx (ClaimInfoEvent claim_info) =
     Some (generate_policy_queries env ctx claim_info)"
| "dispatch env ctx (PolicyQueryEvent qs) = Some (retrieve_policy_text env ctx qs)"
| "dispatch env ctx (PolicyMatchedEvent policy_text) =
     Some (generate_recommendation env ctx policy_text)"
| "dispatch env ctx (RecommendationEvent recommendation) =
     Some (finalize_decision ctx recommendation)"
| "dispatch env ctx (DecisionEvent decision) = Some (output_result ctx decision)"
| "dispatch env ctx (StopEvent result) = None"

text \<open>The position of an event class in the workflow, used to show that a run ends.\<close>

fun event_rank :: "event \<Rightarrow> nat" where
  "event_rank (StartEvent _) = 0"
| "event_rank (ClaimInfoEvent _) = 1"
| "event_rank (PolicyQueryEvent _) = 2"
| "event_rank (PolicyMatchedEvent _) = 3"
| "event_rank (RecommendationEvent _) = 4"
| "event_rank (DecisionEvent _) = 5"
| "event_rank (StopEvent _) = 6"

text \<open>
  A run from an event on: the events handled, in order, and the outcome. The steps are
  declared without a retry policy, so an exception in a step ends the run: the engine raises
  \<open>WorkflowRuntimeError\<close> from it. A workflow with an event no step takes is refused with
  \<open>WorkflowValidationError\<close>; this workflow has no such event.
\<close>

function run_steps ::
    "env \<Rightarrow> Context \<Rightarrow> event \<Rightarrow> event list \<times> (error + ClaimDecision)" where
  "run_steps env ctx ev =
     (case ev of
        StopEvent result \<Rightarrow> ([ev], Inr result)
      | _ \<Rightarrow>
          (case dispatch env ctx ev of
             None \<Rightarrow> ([ev], Inl WorkflowValidationError)
           | Some (Inl e) \<Rightarrow> ([ev], Inl (WorkflowRuntimeError e))
           | Some (Inr (ctx', ev')) \<Rightarrow>
               (case run_steps env ctx' ev' of (trace, res) \<Rightarrow> (ev # trace, res))))"
  by pat_completeness auto
termination
  by (relation "measure (\<lambda>(env, ctx, ev). 6 - event_rank ev)")
     (auto simp: load_claim_info_def generate_policy_queries_def retrieve_policy_text_def
        generate_recommendation_def finalize_decision_def output_result_def Let_def
        split: sum.splits option.splits list.splits)

declare run_steps.simps [simp del]

text \<open>\<open>workflow.run(claim_json_path=...)\<close>: a fresh context and a \<open>StartEvent\<close>.\<close>

definition new_context :: Context where
  "new_context = \<lparr>ctx_claim_info = None, ctx_policy_text = None\<rparr>"

definition run :: "env \<Rightarrow> string \<Rightarrow> event list \<times> (error + ClaimDecision)" where
  "run env claim_json_path = run_steps env new_context (StartEvent claim_json_path)"

section \<open>Notions of the specification\<close>

subsection \<open>States of the orchestrator\<close>

text \<open>
  The specification names a state after each completed step; the event a step emits stands
  for the state reached.
\<close>

datatype state =
    Start
  | ClaimLoaded
  | QueriesGenerated
  | PolicyRetrieved
  | RecommendationReady
  | DecisionFinal
  | Done

fun state_of :: "event \<Rightarrow> state" where
  "state_of (StartEvent _) = Start"
| "state_of (ClaimInfoEvent _) = ClaimLoaded"
| "state_of (PolicyQueryEvent _) = QueriesGenerated"
| "state_of (PolicyMatchedEvent _) = PolicyRetrieved"
| "state_of (RecommendationEvent _) = RecommendationReady"
| "state_of (DecisionEvent _) = DecisionFinal"
| "state_of (StopEvent _) = Done"

definition linear_order :: "state list" where
  "linear_order =
     [Start, ClaimLoaded, QueriesGenerated, PolicyRetrieved, RecommendationReady,
      DecisionFinal, Done]"

text \<open>
  Every event of a trace but the first is the one the step before it emitted, each step
  running in the context its predecessor left.
\<close>

fun steps_linked :: "env \<Rightarrow> Context \<Rightarrow> event list \<Rightarrow> bool" where
  "steps_linked env ctx (ev # ev' # rest) =
     (case dispatch env ctx ev of
        Some (Inr (ctx', out)) \<Rightarrow> out = ev' \<and> steps_linked env ctx' (ev' # rest)
      | _ \<Rightarrow> False)"
| "steps_linked env ctx _ = True"

text \<open>The context in which the last event of a trace is handled.\<close>

fun context_at :: "env \<Rightarrow> Context \<Rightarrow> event list \<Rightarrow> Context" where
  "context_at env ctx (ev # ev' # rest) =
     (case dispatch env ctx ev of
        Some (Inr (ctx', out)) \<Rightarrow> context_at env ctx' (ev' # rest)
      | _ \<Rightarrow> ctx)"
| "context_at env ctx _ = ctx"

subsection \<open>Merging retrieved documents\<close>

text \<open>The elements of a list in the order of their first occurrence.\<close>

fun first_seen :: "'a list \<Rightarrow> 'a list" where
  "first_seen [] = []"
| "first_seen (x # xs) = x # filter (\<lambda>y. y \<noteq> x) (first_seen xs)"

text \<open>The node returned last under a given id.\<close>

definition latest :: "NodeWithScore list \<Rightarrow> string \<Rightarrow> NodeWithScore" where
  "latest docs i = last (filter (\<lambda>d. node_id d = i) docs)"

text \<open>
  A dictionary filled by the assignments \<open>d[x.id_] = x\<close> for \<open>x\<close> running through
  \<open>docs\<close>: its keys are the ids in first-seen order and each key holds the latest node.
\<close>

definition built_from :: "(string \<times> NodeWithScore) list \<Rightarrow> NodeWithScore list \<Rightarrow> bool" where
  "built_from d docs \<longleftrightarrow>
     map fst d = first_seen (map node_id docs) \<and>
     (\<forall>i \<in> set (map node_id docs). map_of d i = Some (latest docs i))"

subsection \<open>Well-formed claim data and query sets\<close>





text \<open>
  A structured output is a query set holding \<open>qs\<close>: a dictionary whose \<open>queries\<close> entry is
  the list of the strings \<open>qs\<close>, or is missing when \<open>qs\<close> is empty.
\<close>

definition query_set_of :: "json \<Rightarrow> string list \<Rightarrow> bool" where
  "query_set_of out qs =
     (case out of
        JDict items \<Rightarrow>
          (case map_of items ''queries'' of
             None \<Rightarrow> qs = []
           | Some v \<Rightarrow> v = JList (map JStr qs))
      | _ \<Rightarrow> False)"

section \<open>Example data\<close>

text \<open>The claim of \<open>john.json\<close> as the notebook shows it (the loss description shortened).\<close>

definition john_json :: json where
  "john_json =
     JDict [(''claim_number'', JStr ''CLAIM-0001''),
            (''policy_number'', JStr ''POLICY-ABC123''),
            (''claimant_name'', JStr ''John Smith''),
            (''date_of_loss'', JStr ''2024-04-10''),
            (''loss_description'', JStr ''While delivering pizzas, collided with a parked car''),
            (''estimated_repair_cost'', JFloat float_1500),
            (''vehicle_details'', JStr ''2022 Honda Civic'')]"

definition john_claim :: ClaimInfo where
  "john_claim =
     \<lparr>ClaimInfo.claim_number = ''CLAIM-0001'',
      policy_number = ''POLICY-ABC123'',
      claimant_name = ''John Smith'',
      date_of_loss = ''2024-04-10'',
      loss_description = ''While delivering pizzas, collided with a parked car'',
      estimated_repair_cost = float_1500,
      vehicle_details = Some ''2022 Honda Civic''\<rparr>"



definition john_context :: Context where
  "john_context = \<lparr>ctx_claim_info = Some john_claim, ctx_policy_text = None\<rparr>"

definition node_a :: NodeWithScore where
  "node_a = \<lparr>node_id = ''a'', get_content = ''PART A''\<rparr>"

definition node_b :: NodeWithScore where
  "node_b = \<lparr>node_id = ''b'', get_content = ''PART B''\<rparr>"

definition node_c :: NodeWithScore where
  "node_c = \<lparr>node_id = ''c'', get_content = ''PART C''\<rparr>"

definition node_decl :: NodeWithScore where
  "node_decl = \<lparr>node_id = ''john-declarations'', get_content = ''DECLARATIONS''\<rparr>"

definition node_other :: NodeWithScore where
  "node_other = \<lparr>node_id = ''alice-declarations'', get_content = ''OTHER''\<rparr>"

definition john_queries :: PolicyQueries where
  "john_queries = \<lparr>queries = [''collision coverage'', ''deductible'']\<rparr>"

definition john_recommendation :: PolicyRecommendation where
  "john_recommendation =
     \<lparr>policy_section = ''Collision Coverage'',
      recommendation_summary = ''Collision Coverage applies with a $500 deductible'',
      PolicyRecommendation.deductible = Some float_500,
      settlement_amount = Some float_1000\<rparr>"

definition john_decision :: ClaimDecision where
  "john_decision =
     \<lparr>ClaimDecision.claim_number = ''CLAIM-0001'',
      covered = True,
      ClaimDecision.deductible = float_500,
      recommended_payout = float_1000,
      decision_notes = Some ''Collision Coverage applies with a $500 deductible''\<rparr>"

definition john_policy_text :: string where
  "john_policy_text =
     ''PART A'' @ [CHR 0x0A, CHR 0x0A] @ ''PART B'' @ [CHR 0x0A, CHR 0x0A] @ ''PART C'' @
     [CHR 0x0A, CHR 0x0A] @ ''DECLARATIONS''"

text \<open>
  Collaborators under which John's run succeeds. The two queries both return node \<open>b\<close>.
\<close>

definition example_env :: env where
  "example_env =
     \<lparr>read_text = (\<lambda>p. if p = ''data/john.json'' then Inr ''john'' else Inl OSError),
      json_loads = (\<lambda>t. if t = ''john'' then Inr john_json else Inl JSONDecodeError),
      float_of_int = (\<lambda>i. None),
      float_of_str = (\<lambda>s. None),
      llm_queries =
        (\<lambda>c. Some (JDict [(''queries'',
                              JList [JStr ''collision coverage'', JStr ''deductible''])])),
      llm_recommendation =
        (\<lambda>c t. Some (JDict
           [(''policy_section'', JStr ''Collision Coverage''),
            (''recommendation_summary'',
               JStr ''Collision Coverage applies with a $500 deductible''),
            (''deductible'', JFloat float_500),
            (''settlement_amount'', JFloat float_1000)])),
      policy_retriever =
        (\<lambda>q. if q = ''collision coverage'' then Some [node_a, node_b]
              else Some [node_b, node_c]),
      declarations_retriever =
        (\<lambda>n. if n = ''POLICY-ABC123'' then Some [node_decl] else Some [])\<rparr>"

text \<open>The same, with a reasoning collaborator that returns an empty query set.\<close>

definition empty_queries_env :: env where
  "empty_queries_env =
     example_env\<lparr>llm_queries := (\<lambda>c. Some (JDict [(''queries'', JList [])]))\<rparr>"



text \<open>The same, with no declarations page for any policy number.\<close>

definition no_declarations_env :: env where
  "no_declarations_env = example_env\<lparr>declarations_retriever := (\<lambda>n. Some [])\<rparr>"

text \<open>The same, with two declarations pages returned for John's policy number.\<close>

definition two_declarations_env :: env where
  "two_declarations_env =
     example_env\<lparr>declarations_retriever := (\<lambda>n. Some [node_decl, node_other])\<rparr>"

section \<open>Facts about the Python values\<close>

lemma float_500_value: "float_value float_500 = 500"
  by (simp add: float_500_def float_value_def float_sign_def float_exponent_def
      float_mantissa_def)

lemma float_1000_value: "float_value float_1000 = 1000"
  by (simp add: float_1000_def float_value_def float_sign_def float_exponent_def
      float_mantissa_def)

lemma float_1500_value: "float_value float_1500 = 1500"
  by (simp add: float_1500_def float_value_def float_sign_def float_exponent_def
      float_mantissa_def)

lemma float_1_value: "float_value float_1 = 1"
  by (simp add: float_1_def float_value_def float_sign_def float_exponent_def
      float_mantissa_def)

lemma float_0_value: "float_value float_0 = 0"
  by (simp add: float_0_def float_value_def float_sign_def float_exponent_def
      float_mantissa_def)

lemma float_gt_zero_bool: "float_gt_zero x \<Longrightarrow> float_bool x"
  by (simp add: float_gt_zero_def float_bool_def)

lemma float_is_zero_not_gt: "float_is_zero x \<Longrightarrow> \<not> float_gt_zero x"
  by (simp add: float_gt_zero_def)

lemma float_consts:
  "float_gt_zero float_500" "float_gt_zero float_1000"
  "float_bool float_500" "float_bool float_1000"
  "\<not> float_is_zero float_500" "\<not> float_is_zero float_1000"
  "float_is_zero float_0" "float_is_zero float_neg_0"
  "\<not> float_bool float_0" "\<not> float_bool float_neg_0"
  "\<not> float_gt_zero float_0" "\<not> float_gt_zero float_neg_0"
  "\<not> float_gt_zero float_nan" "float_bool float_nan"
  "float_neg_0 \<noteq> float_0"
  by (simp_all add: float_gt_zero_def float_is_nan_def float_is_zero_def float_sign_def
      float_bool_def float_exponent_def float_mantissa_def float_500_def float_1000_def
      float_0_def float_neg_0_def float_nan_def)

text \<open>\<open>sub in s\<close> holds exactly when \<open>s\<close> splits around an occurrence of \<open>sub\<close>.\<close>

lemma str_contains_iff: "str_contains sub s \<longleftrightarrow> (\<exists>pre post. s = pre @ sub @ post)"
  by (induction s) (auto simp: sublist_Cons_right sublist_def prefix_def Cons_eq_append_conv)

lemma str_lower_ascii_example:
  "str_lower ''Claim is COVERED'' = ''claim is covered''"
  by (simp add: str_lower_def lower_char_def)

section \<open>The decision finalizer\<close>

lemma finalize_decision_eq:
  assumes "ctx_claim_info ctx = Some ci"
  shows "finalize_decision ctx rec =
     Inr (ctx, DecisionEvent
       \<lparr>ClaimDecision.claim_number = ClaimInfo.claim_number ci,
        covered =
          (str_contains ''covered'' (str_lower (recommendation_summary rec)) \<or>
           (\<exists>x. settlement_amount rec = Some x \<and> float_gt_zero x)),
        ClaimDecision.deductible =
          (case PolicyRecommendation.deductible rec of Some x \<Rightarrow> x | None \<Rightarrow> float_0),
        recommended_payout =
          (case settlement_amount rec of
             None \<Rightarrow> float_0
           | Some x \<Rightarrow> if float_is_zero x then float_0 else x),
        decision_notes = Some (recommendation_summary rec)\<rparr>)"
  using assms
  by (cases "settlement_amount rec")
     (simp_all add: finalize_decision_def ctx_get_claim_info_def Let_def float_bool_def)

text \<open>
  Claim C1. For every recommendation, once the claim is in the context, the finalizer emits
  a decision whose \<open>covered\<close> field is true exactly when the lower-cased summary contains
  \<open>covered\<close> or the settlement amount is present and greater than zero. In particular a
  settlement amount of zero (of either sign) with a summary whose lower-case form lacks the
  keyword gives \<open>covered = False\<close> and a payout of \<open>0.0\<close>.
\<close>

theorem finalize_decision_covered:
  assumes "ctx_claim_info ctx = Some ci"
  shows "\<exists>d. finalize_decision ctx rec = Inr (ctx, DecisionEvent d) \<and>
           (covered d \<longleftrightarrow>
              str_contains ''covered'' (str_lower (recommendation_summary rec)) \<or>
              (\<exists>x. settlement_amount rec = Some x \<and> float_gt_zero x)) \<and>
           ((\<exists>z. settlement_amount rec = Some z \<and> float_is_zero z) \<and>
            \<not> str_contains ''covered'' (str_lower (recommendation_summary rec)) \<longrightarrow>
              \<not> covered d \<and> recommended_payout d = float_0)"
  by (auto simp: finalize_decision_eq [OF assms] float_is_zero_not_gt)

theorem finalize_decision_covered_witness:
  "ctx_claim_info john_context = Some john_claim \<and>
   (\<exists>d. finalize_decision john_context
           (john_recommendation\<lparr>recommendation_summary := ''Not payable'',
                                  settlement_amount := Some float_neg_0\<rparr>) =
           Inr (john_context, DecisionEvent d) \<and>
         \<not> covered d \<and> recommended_payout d = float_0)"
proof -
  have ctx: "ctx_claim_info john_context = Some john_claim"
    by (simp add: john_context_def)
  show ?thesis
    using finalize_decision_covered [OF ctx,
        of "john_recommendation\<lparr>recommendation_summary := ''Not payable'',
                                  settlement_amount := Some float_neg_0\<rparr>"]
    by (auto simp: ctx float_consts str_lower_def lower_char_def)
qed

text \<open>
  Claim C4. For every recommendation the decision's deductible is the recommendation's
  deductible when present and \<open>0.0\<close> otherwise; the payout is the settlement amount when
  present and not zero and \<open>0.0\<close> otherwise; the notes are the summary, unchanged.
\<close>

theorem finalize_decision_fields:
  assumes "ctx_claim_info ctx = Some ci"
  shows "\<exists>d. finalize_decision ctx rec = Inr (ctx, DecisionEvent d) \<and>
           ClaimDecision.deductible d =
             (case PolicyRecommendation.deductible rec of Some x \<Rightarrow> x | None \<Rightarrow> float_0) \<and>
           recommended_payout d =
             (case settlement_amount rec of
                None \<Rightarrow> float_0
              | Some x \<Rightarrow> if float_is_zero x then float_0 else x) \<and>
           decision_notes d = Some (recommendation_summary rec)"
  by (simp add: finalize_decision_eq [OF assms])

theorem finalize_decision_fields_witness:
  "ctx_claim_info john_context = Some john_claim \<and>
   (\<exists>d. finalize_decision john_context john_recommendation =
           Inr (john_context, DecisionEvent d) \<and>
         ClaimDecision.deductible d = float_500 \<and>
         recommended_payout d = float_1000 \<and>
         decision_notes d = Some ''Collision Coverage applies with a $500 deductible'')"
proof -
  have ctx: "ctx_claim_info john_context = Some john_claim"
    by (simp add: john_context_def)
  show ?thesis
    using finalize_decision_fields [OF ctx, of john_recommendation]
    by (auto simp: ctx john_recommendation_def float_consts float_bool_def)
qed

text \<open>
  Claim C5. The scenarios of the specification: any recommendation with deductible 500 and
  settlement 1000 (whatever its summary, so also one about collision coverage and a $500
  deductible) gives a decision that is covered, with deductible 500 and payout 1000; a
  recommendation with neither deductible nor settlement whose lower-cased summary lacks
  \<open>covered\<close> gives a decision that is not covered, with deductible 0 and payout 0.
\<close>

theorem finalize_decision_scenarios:
  assumes "ctx_claim_info ctx = Some ci"
  shows "(PolicyRecommendation.deductible rec = Some float_500 \<and>
          settlement_amount rec = Some float_1000 \<longrightarrow>
            (\<exists>d. finalize_decision ctx rec = Inr (ctx, DecisionEvent d) \<and>
                  covered d \<and> ClaimDecision.deductible d = float_500 \<and>
                  recommended_payout d = float_1000)) \<and>
         (PolicyRecommendation.deductible rec = None \<and> settlement_amount rec = None \<and>
          \<not> str_contains ''covered'' (str_lower (recommendation_summary rec)) \<longrightarrow>
            (\<exists>d. finalize_decision ctx rec = Inr (ctx, DecisionEvent d) \<and>
                  \<not> covered d \<and> ClaimDecision.deductible d = float_0 \<and>
                  recommended_payout d = float_0))"
  by (simp add: finalize_decision_eq [OF assms] float_consts float_bool_def)

theorem finalize_decision_scenarios_witness:
  "finalize_decision john_context john_recommendation =
     Inr (john_context, DecisionEvent john_decision) \<and>
   (\<exists>d. finalize_decision john_context
           \<lparr>policy_section = ''Exclusions'',
            recommendation_summary = ''Loss is excluded under the policy'',
            PolicyRecommendation.deductible = None,
            settlement_amount = None\<rparr> =
           Inr (john_context, DecisionEvent d) \<and>
         \<not> covered d \<and> ClaimDecision.deductible d = float_0 \<and>
         recommended_payout d = float_0)"
proof -
  have ctx: "ctx_claim_info john_context = Some john_claim"
    by (simp add: john_context_def)
  have first: "finalize_decision john_context john_recommendation =
      Inr (john_context, DecisionEvent john_decision)"
    using finalize_decision_scenarios [OF ctx, of john_recommendation]
    by (simp add: finalize_decision_eq [OF ctx] john_recommendation_def john_decision_def
        john_claim_def float_consts str_lower_def lower_char_def)
  have second: "\<not> str_contains ''covered''
      (str_lower ''Loss is excluded under the policy'')"
    by (simp add: str_lower_def lower_char_def)
  show ?thesis
    using first second
      finalize_decision_scenarios [OF ctx,
        of "\<lparr>policy_section = ''Exclusions'',
             recommendation_summary = ''Loss is excluded under the policy'',
             PolicyRecommendation.deductible = None,
             settlement_amount = None\<rparr>"]
    by simp
qed

text \<open>
  Claim C8. The finalizer is a function of the recommendation and the claim alone: two runs
  with any collaborators and any contexts that hold the same claim get the same outcome
  from it on the same recommendation, and each context is handed back unchanged.
\<close>

theorem finalize_decision_deterministic:
  assumes "ctx_claim_info ctx1 = ctx_claim_info ctx2"
  shows "\<exists>out. dispatch env1 ctx1 (RecommendationEvent rec) = Some (map_sum id (Pair ctx1) out) \<and>
               dispatch env2 ctx2 (RecommendationEvent rec) = Some (map_sum id (Pair ctx2) out)"
proof (cases "ctx_claim_info ctx2")
  case None
  with assms show ?thesis
    by (intro exI [of _ "Inl ValueError"])
       (simp add: finalize_decision_def ctx_get_claim_info_def)
next
  case (Some ci)
  with assms have "ctx_claim_info ctx1 = Some ci" by simp
  from finalize_decision_eq [OF this, of rec] finalize_decision_eq [OF Some, of rec]
  show ?thesis
    by (intro exI [of _ "Inr (DecisionEvent
          \<lparr>ClaimDecision.claim_number = ClaimInfo.claim_number ci,
           covered =
             (str_contains ''covered'' (str_lower (recommendation_summary rec)) \<or>
              (\<exists>x. settlement_amount rec = Some x \<and> float_gt_zero x)),
           ClaimDecision.deductible =
             (case PolicyRecommendation.deductible rec of Some x \<Rightarrow> x | None \<Rightarrow> float_0),
           recommended_payout =
             (case settlement_amount rec of
                None \<Rightarrow> float_0
              | Some x \<Rightarrow> if float_is_zero x then float_0 else x),
           decision_notes = Some (recommendation_summary rec)\<rparr>)"])
       simp
qed

theorem finalize_decision_deterministic_witness:
  "ctx_claim_info john_context = ctx_claim_info (john_context\<lparr>ctx_policy_text := Some ''text''\<rparr>) \<and>
   dispatch example_env john_context (RecommendationEvent john_recommendation) =
     Some (Inr (john_context, DecisionEvent john_decision)) \<and>
   dispatch no_declarations_env (john_context\<lparr>ctx_policy_text := Some ''text''\<rparr>)
       (RecommendationEvent john_recommendation) =
     Some (Inr (john_context\<lparr>ctx_policy_text := Some ''text''\<rparr>, DecisionEvent john_decision))"
proof -
  have same: "ctx_claim_info john_context =
      ctx_claim_info (john_context\<lparr>ctx_policy_text := Some ''text''\<rparr>)"
    by simp
  have ctx: "ctx_claim_info john_context = Some john_claim"
    by (simp add: john_context_def)
  have first: "dispatch example_env john_context (RecommendationEvent john_recommendation) =
      Some (Inr (john_context, DecisionEvent john_decision))"
    by (simp add: finalize_decision_eq [OF ctx] john_recommendation_def john_decision_def
        john_claim_def float_consts str_lower_def lower_char_def)
  from finalize_decision_deterministic [OF same, of example_env john_recommendation
      no_declarations_env]
  obtain out where
    a: "dispatch example_env john_context (RecommendationEvent john_recommendation) =
          Some (map_sum id (Pair john_context) out)" and
    b: "dispatch no_declarations_env (john_context\<lparr>ctx_policy_text := Some ''text''\<rparr>)
          (RecommendationEvent john_recommendation) =
          Some (map_sum id (Pair (john_context\<lparr>ctx_policy_text := Some ''text''\<rparr>)) out)"
    by blast
  from a first have "out = Inr (DecisionEvent john_decision)"
    by (cases out) auto
  with b first same show ?thesis
    by simp
qed

section \<open>Schema validation and the claim loader\<close>








lemma john_parses: "parse_claim example_env ''data/john.json'' = Inr john_claim"
  by (simp add: parse_claim_def example_env_def john_json_def john_claim_def
      ClaimInfo_model_validate_def validate_str_def validate_float_def
      validate_optional_str_def)



section \<open>The query generator\<close>

lemma validate_str_list_Some: "validate_str_list xs = Some qs \<longleftrightarrow> xs = map JStr qs"
proof (induction xs arbitrary: qs rule: validate_str_list.induct)
  case 1
  then show ?case by auto
next
  case (2 s xs)
  then show ?case by (cases qs) auto
qed (auto simp: map_eq_Cons_conv)

lemma validate_str_list_map: "validate_str_list (map JStr qs) = Some qs"
  by (simp add: validate_str_list_Some)

lemma PolicyQueries_model_validate_error:
  "PolicyQueries_model_validate out = Inl e \<Longrightarrow> e = ValidationError"
  by (auto simp: PolicyQueries_model_validate_def split: json.splits option.splits)

lemma PolicyQueries_model_validate_iff:
  "PolicyQueries_model_validate out = Inr \<lparr>queries = qs\<rparr> \<longleftrightarrow> query_set_of out qs"
  by (auto simp: PolicyQueries_model_validate_def query_set_of_def validate_str_list_Some
      validate_str_list_map inj_map_eq_map inj_def split: json.splits option.splits)

text \<open>
  Claim C6, as the code has it. The query generator fails when the reasoning collaborator
  raises (\<open>LLMError\<close>) or returns something that is not a query set (\<open>ValidationError\<close>);
  every query set, the empty one included, is accepted and emitted.
\<close>

theorem generate_policy_queries_outcomes:
  "(llm_queries env ci = None \<longrightarrow> generate_policy_queries env ctx ci = Inl LLMError) \<and>
   (\<forall>out. llm_queries env ci = Some out \<and> (\<forall>qs. \<not> query_set_of out qs) \<longrightarrow>
      generate_policy_queries env ctx ci = Inl ValidationError) \<and>
   (\<forall>out qs. llm_queries env ci = Some out \<and> query_set_of out qs \<longrightarrow>
      generate_policy_queries env ctx ci = Inr (ctx, PolicyQueryEvent \<lparr>queries = qs\<rparr>))"
proof (intro conjI allI impI)
  assume "llm_queries env ci = None"
  then show "generate_policy_queries env ctx ci = Inl LLMError"
    by (simp add: generate_policy_queries_def)
next
  fix out
  assume a: "llm_queries env ci = Some out \<and> (\<forall>qs. \<not> query_set_of out qs)"
  show "generate_policy_queries env ctx ci = Inl ValidationError"
  proof (cases "PolicyQueries_model_validate out")
    case (Inl e)
    with a PolicyQueries_model_validate_error [OF Inl] show ?thesis
      by (simp add: generate_policy_queries_def)
  next
    case (Inr r)
    obtain qs where "r = \<lparr>queries = qs\<rparr>" by (cases r) simp
    with Inr a show ?thesis
      by (simp add: PolicyQueries_model_validate_iff)
  qed
next
  fix out qs
  assume "llm_queries env ci = Some out \<and> query_set_of out qs"
  then show "generate_policy_queries env ctx ci = Inr (ctx, PolicyQueryEvent \<lparr>queries = qs\<rparr>)"
    by (simp add: generate_policy_queries_def flip: PolicyQueries_model_validate_iff)
qed

theorem generate_policy_queries_outcomes_witness:
  "llm_queries example_env john_claim =
     Some (JDict [(''queries'', JList [JStr ''collision coverage'', JStr ''deductible''])]) \<and>
   query_set_of (JDict [(''queries'', JList [JStr ''collision coverage'', JStr ''deductible''])])
     [''collision coverage'', ''deductible''] \<and>
   generate_policy_queries example_env john_context john_claim =
     Inr (john_context, PolicyQueryEvent john_queries)"
proof -
  have a: "llm_queries example_env john_claim =
      Some (JDict [(''queries'', JList [JStr ''collision coverage'', JStr ''deductible''])])"
    by (simp add: example_env_def)
  have b: "query_set_of
      (JDict [(''queries'', JList [JStr ''collision coverage'', JStr ''deductible''])])
      [''collision coverage'', ''deductible'']"
    by (simp add: query_set_of_def)
  from generate_policy_queries_outcomes [where env = example_env and ci = john_claim
      and ctx = john_context] a b
  show ?thesis
    by (simp add: john_queries_def)
qed

section \<open>Retrieval and the merge of the retrieved nodes\<close>

lemma set_first_seen: "set (first_seen xs) = set xs"
  by (induction xs) auto

lemma distinct_first_seen: "distinct (first_seen xs)"
  by (induction xs) auto

lemma first_seen_snoc:
  "first_seen (xs @ [k]) = (if k \<in> set xs then first_seen xs else first_seen xs @ [k])"
  by (induction xs) auto

lemma keys_dict_set:
  "map fst (dict_set d k v) = (if k \<in> set (map fst d) then map fst d else map fst d @ [k])"
  by (induction d k v rule: dict_set.induct) auto

lemma map_of_dict_set: "map_of (dict_set d k v) = (map_of d)(k \<mapsto> v)"
  by (induction d k v rule: dict_set.induct) (auto simp: fun_eq_iff)

lemma latest_in_docs:
  assumes "i \<in> set (map node_id docs)"
  shows "latest docs i \<in> set docs \<and> node_id (latest docs i) = i"
proof -
  have "filter (\<lambda>d. node_id d = i) docs \<noteq> []"
    using assms by (auto simp: filter_empty_conv)
  from last_in_set [OF this] show ?thesis
    by (simp add: latest_def)
qed

lemma built_from_Nil: "built_from [] []"
  by (simp add: built_from_def)

lemma built_from_dict_set:
  assumes "built_from d docs"
  shows "built_from (dict_set d (node_id x) x) (docs @ [x])"
  using assms
  by (auto simp: built_from_def keys_dict_set first_seen_snoc set_first_seen map_of_dict_set
      latest_def)

lemma built_from_add_docs:
  "built_from d docs \<Longrightarrow> built_from (add_docs d new) (docs @ new)"
proof (induction new arbitrary: d docs)
  case Nil
  then show ?case by simp
next
  case (Cons x new)
  from Cons.IH [OF built_from_dict_set [OF Cons.prems, of x]]
  show ?case by simp
qed

lemma built_from_foldl:
  "built_from d docs \<Longrightarrow> built_from (foldl add_docs d results) (docs @ concat results)"
proof (induction results arbitrary: d docs)
  case Nil
  then show ?case by simp
next
  case (Cons r rs)
  from Cons.IH [OF built_from_add_docs [OF Cons.prems, of r]]
  show ?case by simp
qed

lemma retrieve_queries_ok:
  assumes "map (policy_retriever env) qs = map Some results"
  shows "retrieve_queries env d qs = Inr (foldl add_docs d results)"
  using assms
proof (induction qs arbitrary: d results)
  case Nil
  then show ?case by simp
next
  case (Cons q qs)
  then obtain r rs where "results = r # rs" by (cases results) auto
  with Cons show ?case by auto
qed

lemma values_by_lookup:
  "distinct (map fst d) \<Longrightarrow> map snd d = map (\<lambda>k. the (map_of d k)) (map fst d)"
proof (induction d)
  case Nil
  then show ?case by simp
next
  case (Cons a d)
  obtain k v where a: "a = (k, v)" by (cases a)
  have fresh: "k \<notin> set (map fst d)" and dist: "distinct (map fst d)"
    using Cons.prems by (simp_all add: a)
  have "map (\<lambda>k'. the (map_of (a # d) k')) (map fst d) =
        map (\<lambda>k'. the (map_of d k')) (map fst d)"
  proof (rule map_cong [OF refl])
    fix k' assume "k' \<in> set (map fst d)"
    with fresh have "k' \<noteq> k" by blast
    then show "the (map_of (a # d) k') = the (map_of d k')" by (simp add: a)
  qed
  with Cons.IH [OF dist] show ?case by (simp add: a)
qed

lemma built_from_values:
  assumes "built_from d docs"
  shows "dict_values d = map (latest docs) (first_seen (map node_id docs))"
proof -
  have keys: "map fst d = first_seen (map node_id docs)"
    and vals: "\<And>i. i \<in> set (map node_id docs) \<Longrightarrow> map_of d i = Some (latest docs i)"
    using assms unfolding built_from_def by blast+
  have dist: "distinct (map fst d)"
    by (simp only: keys distinct_first_seen)
  have "map snd d = map (\<lambda>k. the (map_of d k)) (map fst d)"
    by (rule values_by_lookup [OF dist])
  also have "\<dots> = map (latest docs) (map fst d)"
  proof (rule map_cong [OF refl])
    fix k assume "k \<in> set (map fst d)"
    then have "k \<in> set (map node_id docs)"
      by (simp only: keys set_first_seen)
    then show "the (map_of d k) = latest docs k"
      by (simp only: vals option.sel)
  qed
  finally show ?thesis
    by (simp only: dict_values_def keys)
qed

text \<open>
  What the retrieval step returns when every search succeeds and the declaration lookup
  returns at least one node.
\<close>

lemma retrieve_policy_text_eq:
  assumes "ctx_claim_info ctx = Some ci"
    and "map (policy_retriever env) (queries qs) = map Some results"
    and "get_declarations_docs env (policy_number ci) = Some (d_doc # others)"
  shows "retrieve_policy_text env ctx qs =
     (let docs = concat results @ [d_doc];
          policy_text = str_join [CHR 0x0A, CHR 0x0A]
                   (map (\<lambda>i. get_content (latest docs i)) (first_seen (map node_id docs)))
      in Inr (ctx\<lparr>ctx_policy_text := Some policy_text\<rparr>, PolicyMatchedEvent policy_text))"
proof -
  have "built_from (foldl add_docs [] results) ([] @ concat results)"
    by (rule built_from_foldl [OF built_from_Nil])
  then have "built_from (dict_set (foldl add_docs [] results) (node_id d_doc) d_doc)
               (concat results @ [d_doc])"
    using built_from_dict_set by fastforce
  from built_from_values [OF this] show ?thesis
    using assms
    by (simp add: retrieve_policy_text_def ctx_get_claim_info_def retrieve_queries_ok Let_def
        comp_def)
qed

lemma example_retrieval:
  "map (policy_retriever example_env) (queries john_queries) =
     map Some [[node_a, node_b], [node_b, node_c]]"
  by (simp add: example_env_def john_queries_def)

lemma example_first_seen:
  "first_seen (map node_id (concat [[node_a, node_b], [node_b, node_c]] @ [node_decl])) =
     [''a'', ''b'', ''c'', ''john-declarations'']"
  by (simp add: node_a_def node_b_def node_c_def node_decl_def)

lemma example_latest:
  "map (\<lambda>i. get_content
          (latest (concat [[node_a, node_b], [node_b, node_c]] @ [node_decl]) i))
     [''a'', ''b'', ''c'', ''john-declarations''] =
   [''PART A'', ''PART B'', ''PART C'', ''DECLARATIONS'']"
  by (simp add: latest_def node_a_def node_b_def node_c_def node_decl_def)

text \<open>
  Claim C3. When the searches for the queries return \<open>results\<close> and the declaration lookup
  returns \<open>d_doc\<close> first, the policy text is the texts of the distinct node ids, one per
  id, in the order in which the ids are first seen in the query results followed by the
  declaration node, joined by two newlines. The text under an id is that of the node
  returned last with the id, which is one of the nodes returned. A declaration node whose
  id no query returned comes last.
\<close>

theorem retrieve_policy_text_merge:
  assumes "ctx_claim_info ctx = Some ci"
    and "map (policy_retriever env) (queries qs) = map Some results"
    and "get_declarations_docs env (policy_number ci) = Some (d_doc # others)"
  shows "let docs = concat results @ [d_doc];
             ids = first_seen (map node_id docs);
             policy_text =
               str_join [CHR 0x0A, CHR 0x0A] (map (\<lambda>i. get_content (latest docs i)) ids)
         in retrieve_policy_text env ctx qs =
              Inr (ctx\<lparr>ctx_policy_text := Some policy_text\<rparr>, PolicyMatchedEvent policy_text) \<and>
            distinct ids \<and> set ids = set (map node_id docs) \<and>
            (\<forall>i \<in> set ids. latest docs i \<in> set docs \<and> node_id (latest docs i) = i) \<and>
            (node_id d_doc \<notin> set (map node_id (concat results)) \<longrightarrow>
               ids = first_seen (map node_id (concat results)) @ [node_id d_doc] \<and>
               latest docs (node_id d_doc) = d_doc)"
proof -
  define docs where "docs = concat results @ [d_doc]"
  define ids where "ids = first_seen (map node_id docs)"
  have step: "retrieve_policy_text env ctx qs =
      Inr (ctx\<lparr>ctx_policy_text :=
                 Some (str_join [CHR 0x0A, CHR 0x0A]
                         (map (\<lambda>i. get_content (latest docs i)) ids))\<rparr>,
           PolicyMatchedEvent
             (str_join [CHR 0x0A, CHR 0x0A] (map (\<lambda>i. get_content (latest docs i)) ids)))"
    using retrieve_policy_text_eq [OF assms] by (simp add: Let_def docs_def ids_def)
  have dist: "distinct ids"
    by (simp add: ids_def distinct_first_seen)
  have cover: "set ids = set (map node_id docs)"
    by (simp only: ids_def set_first_seen)
  have each: "\<forall>i \<in> set ids. latest docs i \<in> set docs \<and> node_id (latest docs i) = i"
    using latest_in_docs cover by blast
  have fresh: "node_id d_doc \<notin> set (map node_id (concat results)) \<longrightarrow>
      ids = first_seen (map node_id (concat results)) @ [node_id d_doc] \<and>
      latest docs (node_id d_doc) = d_doc"
    by (simp add: ids_def docs_def first_seen_snoc latest_def)
  from step dist cover each fresh show ?thesis
    unfolding Let_def docs_def [symmetric] ids_def [symmetric] by blast
qed

theorem retrieve_policy_text_merge_witness:
  "ctx_claim_info john_context = Some john_claim \<and>
   map (policy_retriever example_env) (queries john_queries) =
     map Some [[node_a, node_b], [node_b, node_c]] \<and>
   get_declarations_docs example_env (policy_number john_claim) = Some [node_decl] \<and>
   retrieve_policy_text example_env john_context john_queries =
     Inr (john_context\<lparr>ctx_policy_text := Some john_policy_text\<rparr>,
          PolicyMatchedEvent john_policy_text)"
proof -
  have ctx: "ctx_claim_info john_context = Some john_claim"
    by (simp add: john_context_def)
  have decl: "get_declarations_docs example_env (policy_number john_claim) = Some [node_decl]"
    by (simp add: get_declarations_docs_def example_env_def john_claim_def)
  have "str_join [CHR 0x0A, CHR 0x0A] [''PART A'', ''PART B'', ''PART C'', ''DECLARATIONS''] =
      john_policy_text"
    by (simp add: john_policy_text_def)
  with retrieve_policy_text_merge [OF ctx example_retrieval decl]
  show ?thesis
    unfolding Let_def example_first_seen example_latest
    using ctx decl example_retrieval by simp
qed

text \<open>
  Claim C10. When the declaration lookup returns two or more nodes, the retrieval step still
  succeeds (the searches succeeding), and its result is the one it gives when the lookup
  returns the first node alone: the other nodes have no effect.
\<close>

theorem retrieve_policy_text_first_declaration:
  assumes "ctx_claim_info ctx = Some ci"
    and "map (policy_retriever env) (queries qs) = map Some results"
    and "get_declarations_docs env (policy_number ci) = Some (d_doc # second # others)"
  shows "(\<exists>policy_text. retrieve_policy_text env ctx qs =
            Inr (ctx\<lparr>ctx_policy_text := Some policy_text\<rparr>, PolicyMatchedEvent policy_text)) \<and>
         retrieve_policy_text env ctx qs =
           retrieve_policy_text (env\<lparr>declarations_retriever := (\<lambda>n. Some [d_doc])\<rparr>) ctx qs"
proof -
  let ?env = "env\<lparr>declarations_retriever := (\<lambda>n. Some [d_doc])\<rparr>"
  have searches: "map (policy_retriever ?env) (queries qs) = map Some results"
    using assms(2) by simp
  have lookup: "get_declarations_docs ?env (policy_number ci) = Some (d_doc # [])"
    by (simp add: get_declarations_docs_def)
  show ?thesis
    unfolding retrieve_policy_text_eq [OF assms]
      retrieve_policy_text_eq [OF assms(1) searches lookup]
    by (simp add: Let_def)
qed

theorem retrieve_policy_text_first_declaration_witness:
  "ctx_claim_info john_context = Some john_claim \<and>
   get_declarations_docs two_declarations_env (policy_number john_claim) =
     Some [node_decl, node_other] \<and>
   retrieve_policy_text two_declarations_env john_context john_queries =
     Inr (john_context\<lparr>ctx_policy_text := Some john_policy_text\<rparr>,
          PolicyMatchedEvent john_policy_text)"
proof -
  have ctx: "ctx_claim_info john_context = Some john_claim"
    by (simp add: john_context_def)
  have searches: "map (policy_retriever two_declarations_env) (queries john_queries) =
      map Some [[node_a, node_b], [node_b, node_c]]"
    using example_retrieval by (simp add: two_declarations_env_def)
  have lookup: "get_declarations_docs two_declarations_env (policy_number john_claim) =
      Some (node_decl # node_other # [])"
    by (simp add: get_declarations_docs_def two_declarations_env_def)
  have one: "get_declarations_docs
      (two_declarations_env\<lparr>declarations_retriever := (\<lambda>n. Some [node_decl])\<rparr>)
      (policy_number john_claim) = Some (node_decl # [])"
    by (simp add: get_declarations_docs_def)
  have searches': "map (policy_retriever
      (two_declarations_env\<lparr>declarations_retriever := (\<lambda>n. Some [node_decl])\<rparr>))
      (queries john_queries) = map Some [[node_a, node_b], [node_b, node_c]]"
    using searches by simp
  have "retrieve_policy_text
      (two_declarations_env\<lparr>declarations_retriever := (\<lambda>n. Some [node_decl])\<rparr>)
      john_context john_queries =
      Inr (john_context\<lparr>ctx_policy_text := Some john_policy_text\<rparr>,
           PolicyMatchedEvent john_policy_text)"
    unfolding retrieve_policy_text_eq [OF ctx searches' one] Let_def
      example_first_seen example_latest
    by (simp add: john_policy_text_def)
  with retrieve_policy_text_first_declaration [OF ctx searches lookup] ctx lookup
  show ?thesis
    by simp
qed

section \<open>Runs of the workflow\<close>

lemma dispatch_rank:
  "dispatch env ctx ev = Some (Inr (ctx', ev')) \<Longrightarrow> event_rank ev' = Suc (event_rank ev)"
  by (cases ev)
     (auto simp: load_claim_info_def generate_policy_queries_def retrieve_policy_text_def
        generate_recommendation_def finalize_decision_def output_result_def Let_def
        split: sum.splits option.splits list.splits)

lemma run_steps_stop: "run_steps env ctx (StopEvent d) = ([StopEvent d], Inr d)"
  by (simp add: run_steps.simps)

lemma run_steps_fail:
  "dispatch env ctx ev = Some (Inl e) \<Longrightarrow>
     run_steps env ctx ev = ([ev], Inl (WorkflowRuntimeError e))"
  by (cases ev) (simp_all add: run_steps.simps)

lemma run_steps_next:
  "dispatch env ctx ev = Some (Inr (ctx', ev')) \<Longrightarrow>
     run_steps env ctx ev = (ev # fst (run_steps env ctx' ev'), snd (run_steps env ctx' ev'))"
  by (cases ev) (simp_all add: run_steps.simps split: prod.splits)

lemma dispatch_cases:
  obtains (stop) d where "ev = StopEvent d"
  | (fail) e where "dispatch env ctx ev = Some (Inl e)"
  | (step) ctx' ev' where "dispatch env ctx ev = Some (Inr (ctx', ev'))"
proof (cases ev)
  case (StopEvent d)
  then show ?thesis by (rule stop)
next
  case (StartEvent x)
  then show ?thesis using fail step by (cases "load_claim_info env ctx x") auto
next
  case (ClaimInfoEvent x)
  then show ?thesis using fail step by (cases "generate_policy_queries env ctx x") auto
next
  case (PolicyQueryEvent x)
  then show ?thesis using fail step by (cases "retrieve_policy_text env ctx x") auto
next
  case (PolicyMatchedEvent x)
  then show ?thesis using fail step by (cases "generate_recommendation env ctx x") auto
next
  case (RecommendationEvent x)
  then show ?thesis using fail step by (cases "finalize_decision ctx x") auto
next
  case (DecisionEvent x)
  then show ?thesis using fail step by (cases "output_result ctx x") auto
qed

lemma state_of_rank: "state_of ev = linear_order ! event_rank ev"
  by (cases ev) (simp_all add: linear_order_def)

lemma event_rank_le: "event_rank ev \<le> 6"
  by (cases ev) simp_all

lemma event_rank_stop: "event_rank ev = 6 \<longleftrightarrow> (\<exists>d. ev = StopEvent d)"
  by (cases ev) simp_all

text \<open>
  The invariant of a run from \<open>ev\<close>: the events handled have consecutive ranks starting at
  that of \<open>ev\<close>, each is the output of the step before, a run that succeeds ends with the
  \<open>StopEvent\<close> carrying its result, and a run that fails ends at the event whose step, in
  the context the steps before it left, raised the cause of the error; that event is not a
  \<open>DecisionEvent\<close>.
\<close>

lemma run_steps_invariant:
  "case run_steps env ctx ev of
     (trace, res) \<Rightarrow>
       trace \<noteq> [] \<and> hd trace = ev \<and>
       map event_rank trace = [event_rank ev ..< event_rank ev + length trace] \<and>
       steps_linked env ctx trace \<and>
       (case res of
          Inr d \<Rightarrow> last trace = StopEvent d
        | Inl e \<Rightarrow> event_rank (last trace) < 5 \<and>
                   (\<exists>cause. e = WorkflowRuntimeError cause \<and>
                      dispatch env (context_at env ctx trace) (last trace) =
                        Some (Inl cause)))"
proof (induction "6 - event_rank ev" arbitrary: ctx ev rule: less_induct)
  case less
  consider (stop) d where "ev = StopEvent d"
    | (fail) e where "dispatch env ctx ev = Some (Inl e)"
    | (step) ctx' ev' where "dispatch env ctx ev = Some (Inr (ctx', ev'))"
    by (rule dispatch_cases)
  then show ?case
  proof cases
    case (stop d)
    then show ?thesis by (simp add: run_steps_stop)
  next
    case (fail e)
    then have "event_rank ev < 5"
      by (cases ev) (simp_all add: output_result_def)
    with fail show ?thesis by (auto simp: run_steps_fail)
  next
    case (step ctx' ev')
    have rk: "event_rank ev' = Suc (event_rank ev)"
      by (rule dispatch_rank [OF step])
    have "event_rank ev' \<le> 6" by (rule event_rank_le)
    with rk have "6 - event_rank ev' < 6 - event_rank ev" by simp
    from less [OF this, of ctx'] obtain trace res where
      r: "run_steps env ctx' ev' = (trace, res)" and
      ne: "trace \<noteq> []" and h: "hd trace = ev'" and
      rks: "map event_rank trace = [event_rank ev' ..< event_rank ev' + length trace]" and
      lk: "steps_linked env ctx' trace" and
      rs: "case res of
             Inr d \<Rightarrow> last trace = StopEvent d
           | Inl e \<Rightarrow> event_rank (last trace) < 5 \<and>
                      (\<exists>cause. e = WorkflowRuntimeError cause \<and>
                         dispatch env (context_at env ctx' trace) (last trace) =
                           Some (Inl cause))"
      by (cases "run_steps env ctx' ev'") simp
    from ne h obtain rest where tr: "trace = ev' # rest" by (cases trace) auto
    have "[event_rank ev ..< event_rank ev + length (ev # trace)] =
            event_rank ev # [Suc (event_rank ev) ..< Suc (event_rank ev) + length trace]"
      by (subst upt_conv_Cons) simp_all
    also have "\<dots> = event_rank ev # map event_rank trace"
      by (simp only: rks rk)
    finally have "map event_rank (ev # trace) =
        [event_rank ev ..< event_rank ev + length (ev # trace)]"
      by simp
    moreover have "steps_linked env ctx (ev # trace)"
      using lk step by (simp add: tr)
    moreover have "last (ev # trace) = last trace"
      using ne by simp
    moreover have "context_at env ctx (ev # trace) = context_at env ctx' trace"
      using step by (simp add: tr)
    ultimately show ?thesis
      using rs by (simp add: run_steps_next [OF step] r del: last.simps upt_Suc
          context_at.simps split: sum.splits)
  qed
qed

lemma take_linear_order:
  assumes "map event_rank trace = [0 ..< length trace]"
  shows "length trace \<le> 7 \<and> map state_of trace = take (length trace) linear_order"
proof -
  have len: "length trace \<le> 7"
  proof (cases trace rule: rev_cases)
    case Nil
    then show ?thesis by simp
  next
    case (snoc xs x)
    with assms have "event_rank x = length xs" by simp
    with event_rank_le [of x] snoc show ?thesis by simp
  qed
  have "map state_of trace = map ((!) linear_order) (map event_rank trace)"
    by (simp add: state_of_rank)
  also have "\<dots> = take (length trace) linear_order"
    unfolding assms using len
    by (intro nth_equalityI) (simp_all add: linear_order_def)
  finally show ?thesis using len by simp
qed

text \<open>
  Claim C9. Every run starts with the \<open>StartEvent\<close>; the states it passes through are an
  initial part of Start, ClaimLoaded, QueriesGenerated, PolicyRetrieved,
  RecommendationReady, DecisionFinal, Done, so no state is skipped, repeated or visited out
  of order; each step handles the event its predecessor emitted. A run that yields a decision
  went through all seven states and ends with the \<open>StopEvent\<close> carrying it; a run that fails
  stops at the event whose step, run in the context the steps before it left, raised an
  exception, ends with the engine's error caused by that exception, and has no decision
  event or stop event. So a run goes on as long as its steps succeed, and only so long.
\<close>

theorem workflow_strictly_linear:
  "case run env claim_json_path of
     (trace, res) \<Rightarrow>
       trace \<noteq> [] \<and> hd trace = StartEvent claim_json_path \<and>
       prefix (map state_of trace) linear_order \<and>
       steps_linked env new_context trace \<and>
       (case res of
          Inr decision \<Rightarrow>
            map state_of trace = linear_order \<and> last trace = StopEvent decision
        | Inl e \<Rightarrow>
            DecisionFinal \<notin> set (map state_of trace) \<and>
            Done \<notin> set (map state_of trace) \<and>
            (\<exists>cause. e = WorkflowRuntimeError cause \<and>
               dispatch env (context_at env new_context trace) (last trace) =
                 Some (Inl cause)))"
proof -
  obtain trace res where r: "run env claim_json_path = (trace, res)"
    by (cases "run env claim_json_path")
  from run_steps_invariant [where env = env and ctx = new_context and ev = "StartEvent claim_json_path"] r
  have ne: "trace \<noteq> []" and h: "hd trace = StartEvent claim_json_path"
    and rks: "map event_rank trace = [0 ..< length trace]"
    and lk: "steps_linked env new_context trace"
    and rs: "case res of
               Inr d \<Rightarrow> last trace = StopEvent d
             | Inl e \<Rightarrow> event_rank (last trace) < 5 \<and>
                        (\<exists>cause. e = WorkflowRuntimeError cause \<and>
                           dispatch env (context_at env new_context trace) (last trace) =
                             Some (Inl cause))"
    by (simp_all add: run_def)
  from take_linear_order [OF rks]
  have len: "length trace \<le> 7" and st: "map state_of trace = take (length trace) linear_order"
    by simp_all
  have pre: "prefix (map state_of trace) linear_order"
    unfolding st by (rule take_is_prefix)
  have last_rank: "event_rank (last trace) = length trace - 1"
  proof -
    have "event_rank (last trace) = last (map event_rank trace)"
      using ne by (simp add: last_map)
    also have "\<dots> = length trace - 1"
      unfolding rks using ne by (simp add: last_upt)
    finally show ?thesis .
  qed
  have outcome: "case res of
      Inr decision \<Rightarrow> map state_of trace = linear_order \<and> last trace = StopEvent decision
    | Inl e \<Rightarrow>
        DecisionFinal \<notin> set (map state_of trace) \<and> Done \<notin> set (map state_of trace) \<and>
        (\<exists>cause. e = WorkflowRuntimeError cause \<and>
           dispatch env (context_at env new_context trace) (last trace) = Some (Inl cause))"
  proof (cases res)
    case (Inr d)
    with rs have "last trace = StopEvent d" by simp
    with last_rank ne have "length trace = 7"
      by (cases trace) simp_all
    with st Inr \<open>last trace = StopEvent d\<close> show ?thesis
      by (simp add: linear_order_def)
  next
    case (Inl e)
    with rs have "event_rank (last trace) < 5"
      and err: "\<exists>cause. e = WorkflowRuntimeError cause \<and>
        dispatch env (context_at env new_context trace) (last trace) = Some (Inl cause)"
      by simp_all
    with last_rank have "length trace \<le> 5" by simp
    then have "set (take (length trace) linear_order) \<subseteq> set (take 5 linear_order)"
      by (rule set_take_subset_set_take)
    then have "DecisionFinal \<notin> set (map state_of trace) \<and> Done \<notin> set (map state_of trace)"
      unfolding st by (auto simp: linear_order_def)
    with err Inl show ?thesis by simp
  qed
  from ne h pre lk outcome show ?thesis
    by (simp add: r)
qed

subsection \<open>The example run\<close>

lemma new_context_john: "new_context\<lparr>ctx_claim_info := Some john_claim\<rparr> = john_context"
  by (simp add: new_context_def john_context_def)

lemma john_ctx: "ctx_claim_info john_context = Some john_claim"
  by (simp add: john_context_def)

lemma john_ctx': "ctx_claim_info (john_context\<lparr>ctx_policy_text := t\<rparr>) = Some john_claim"
  by (simp add: john_context_def)

lemma john_load:
  "parse_claim env ''data/john.json'' = Inr john_claim \<Longrightarrow>
   dispatch env new_context (StartEvent ''data/john.json'') =
     Some (Inr (john_context, ClaimInfoEvent john_claim))"
  by (simp add: load_claim_info_def new_context_john)

lemma john_generate:
  "dispatch example_env john_context (ClaimInfoEvent john_claim) =
     Some (Inr (john_context, PolicyQueryEvent john_queries))"
  by (simp add: generate_policy_queries_def example_env_def PolicyQueries_model_validate_def
      john_queries_def)

lemma john_retrieve:
  "dispatch example_env john_context (PolicyQueryEvent john_queries) =
     Some (Inr (john_context\<lparr>ctx_policy_text := Some john_policy_text\<rparr>,
                PolicyMatchedEvent john_policy_text))"
proof -
  have decl: "get_declarations_docs example_env (policy_number john_claim) =
      Some (node_decl # [])"
    by (simp add: get_declarations_docs_def example_env_def john_claim_def)
  show ?thesis
    unfolding dispatch.simps retrieve_policy_text_eq [OF john_ctx example_retrieval decl]
      Let_def example_first_seen example_latest
    by (simp add: john_policy_text_def)
qed

lemma john_recommend:
  "dispatch example_env (john_context\<lparr>ctx_policy_text := t\<rparr>) (PolicyMatchedEvent p) =
     Some (Inr (john_context\<lparr>ctx_policy_text := t\<rparr>, RecommendationEvent john_recommendation))"
  by (simp add: generate_recommendation_def ctx_get_claim_info_def john_ctx' example_env_def
      PolicyRecommendation_model_validate_def validate_str_def validate_optional_float_def
      validate_float_def john_recommendation_def)

lemma john_finalize:
  "dispatch env (john_context\<lparr>ctx_policy_text := t\<rparr>) (RecommendationEvent john_recommendation) =
     Some (Inr (john_context\<lparr>ctx_policy_text := t\<rparr>, DecisionEvent john_decision))"
  by (simp add: finalize_decision_eq [OF john_ctx'] john_recommendation_def john_decision_def
      john_claim_def float_consts str_lower_def lower_char_def)

lemma john_output:
  "dispatch env ctx (DecisionEvent d) = Some (Inr (ctx, StopEvent d))"
  by (simp add: output_result_def)

lemma john_run:
  "run example_env ''data/john.json'' =
     ([StartEvent ''data/john.json'', ClaimInfoEvent john_claim, PolicyQueryEvent john_queries,
       PolicyMatchedEvent john_policy_text, RecommendationEvent john_recommendation,
       DecisionEvent john_decision, StopEvent john_decision],
      Inr john_decision)"
  unfolding run_def
  by (simp only: run_steps_next [OF john_load [OF john_parses]]
      run_steps_next [OF john_generate] run_steps_next [OF john_retrieve]
      run_steps_next [OF john_recommend] run_steps_next [OF john_finalize]
      run_steps_next [OF john_output] run_steps_stop fst_conv snd_conv)

lemma nobody_run:
  "run example_env ''data/nobody.json'' =
     ([StartEvent ''data/nobody.json''], Inl (WorkflowRuntimeError OSError))"
  unfolding run_def
  by (rule run_steps_fail)
     (simp add: load_claim_info_def parse_claim_def example_env_def)

theorem workflow_strictly_linear_witness:
  "map state_of (fst (run example_env ''data/john.json'')) = linear_order \<and>
   last (fst (run example_env ''data/john.json'')) = StopEvent john_decision \<and>
   snd (run example_env ''data/john.json'') = Inr john_decision \<and>
   fst (run example_env ''data/nobody.json'') = [StartEvent ''data/nobody.json''] \<and>
   DecisionFinal \<notin> set (map state_of (fst (run example_env ''data/nobody.json''))) \<and>
   snd (run example_env ''data/nobody.json'') = Inl (WorkflowRuntimeError OSError)"
proof -
  from workflow_strictly_linear [where env = example_env and claim_json_path = "''data/john.json''"]
  have "map state_of (fst (run example_env ''data/john.json'')) = linear_order \<and>
      last (fst (run example_env ''data/john.json'')) = StopEvent john_decision"
    by (simp add: john_run)
  moreover from workflow_strictly_linear [where env = example_env and claim_json_path = "''data/nobody.json''"]
  have "DecisionFinal \<notin> set (map state_of (fst (run example_env ''data/nobody.json'')))"
    by (simp add: nobody_run)
  ultimately show ?thesis
    by (simp add: john_run nobody_run)
qed

text \<open>
  Claim C2, as the code has it. When the claim loads, the queries are generated, every
  search succeeds and the declaration lookup for the claim's policy number returns no node,
  the retrieval step raises \<open>IndexError\<close>, from taking element 0 of the empty result, and
  the run ends there with the engine's \<open>WorkflowRuntimeError\<close> caused by it: the events
  handled are the start, the claim and the queries, so no recommendation and no decision is
  produced.
\<close>

theorem declaration_not_found:
  assumes "parse_claim env claim_json_path = Inr ci"
    and "llm_queries env ci = Some out"
    and "PolicyQueries_model_validate out = Inr qs"
    and "map (policy_retriever env) (queries qs) = map Some results"
    and "get_declarations_docs env (policy_number ci) = Some []"
  shows "retrieve_policy_text env (new_context\<lparr>ctx_claim_info := Some ci\<rparr>) qs = Inl IndexError \<and>
         run env claim_json_path =
           ([StartEvent claim_json_path, ClaimInfoEvent ci, PolicyQueryEvent qs],
            Inl (WorkflowRuntimeError IndexError))"
proof -
  let ?ctx = "new_context\<lparr>ctx_claim_info := Some ci\<rparr>"
  have load: "dispatch env new_context (StartEvent claim_json_path) =
      Some (Inr (?ctx, ClaimInfoEvent ci))"
    using assms(1) by (simp add: load_claim_info_def)
  have gen: "dispatch env ?ctx (ClaimInfoEvent ci) = Some (Inr (?ctx, PolicyQueryEvent qs))"
    using assms(2,3) by (simp add: generate_policy_queries_def)
  have retr: "retrieve_policy_text env ?ctx qs = Inl IndexError"
    using assms(5)
    by (simp add: retrieve_policy_text_def ctx_get_claim_info_def
        retrieve_queries_ok [OF assms(4)])
  then have "dispatch env ?ctx (PolicyQueryEvent qs) = Some (Inl IndexError)"
    by simp
  then have "run_steps env ?ctx (PolicyQueryEvent qs) =
      ([PolicyQueryEvent qs], Inl (WorkflowRuntimeError IndexError))"
    by (rule run_steps_fail)
  then have "run env claim_json_path =
      ([StartEvent claim_json_path, ClaimInfoEvent ci, PolicyQueryEvent qs],
       Inl (WorkflowRuntimeError IndexError))"
    unfolding run_def
    by (simp only: run_steps_next [OF load] run_steps_next [OF gen] fst_conv snd_conv)
  with retr show ?thesis by simp
qed

lemma no_declarations_facts:
  "parse_claim no_declarations_env ''data/john.json'' = Inr john_claim"
  "llm_queries no_declarations_env john_claim =
     Some (JDict [(''queries'', JList [JStr ''collision coverage'', JStr ''deductible''])])"
  "PolicyQueries_model_validate
     (JDict [(''queries'', JList [JStr ''collision coverage'', JStr ''deductible''])]) =
     Inr john_queries"
  "map (policy_retriever no_declarations_env) (queries john_queries) =
     map Some [[node_a, node_b], [node_b, node_c]]"
  "get_declarations_docs no_declarations_env (policy_number john_claim) = Some []"
proof -
  show "parse_claim no_declarations_env ''data/john.json'' = Inr john_claim"
    by (simp add: parse_claim_def no_declarations_env_def example_env_def john_json_def
        john_claim_def ClaimInfo_model_validate_def validate_str_def validate_float_def
        validate_optional_str_def)
  show "llm_queries no_declarations_env john_claim =
     Some (JDict [(''queries'', JList [JStr ''collision coverage'', JStr ''deductible''])])"
    by (simp add: no_declarations_env_def example_env_def)
  show "PolicyQueries_model_validate
     (JDict [(''queries'', JList [JStr ''collision coverage'', JStr ''deductible''])]) =
     Inr john_queries"
    by (simp add: PolicyQueries_model_validate_def john_queries_def)
  show "map (policy_retriever no_declarations_env) (queries john_queries) =
     map Some [[node_a, node_b], [node_b, node_c]]"
    using example_retrieval by (simp add: no_declarations_env_def)
  show "get_declarations_docs no_declarations_env (policy_number john_claim) = Some []"
    by (simp add: get_declarations_docs_def no_declarations_env_def)
qed

theorem declaration_not_found_witness:
  "parse_claim no_declarations_env ''data/john.json'' = Inr john_claim \<and>
   get_declarations_docs no_declarations_env (policy_number john_claim) = Some [] \<and>
   run no_declarations_env ''data/john.json'' =
     ([StartEvent ''data/john.json'', ClaimInfoEvent john_claim, PolicyQueryEvent john_queries],
      Inl (WorkflowRuntimeError IndexError))"
  using declaration_not_found [OF no_declarations_facts] no_declarations_facts(1,5)
  by simp

lemma no_declarations_run:
  "run no_declarations_env ''data/john.json'' =
     ([StartEvent ''data/john.json'', ClaimInfoEvent john_claim, PolicyQueryEvent john_queries],
      Inl (WorkflowRuntimeError IndexError))"
proof -
  have load: "dispatch no_declarations_env new_context (StartEvent ''data/john.json'') =
      Some (Inr (john_context, ClaimInfoEvent john_claim))"
    by (rule john_load [OF no_declarations_facts(1)])
  have gen: "dispatch no_declarations_env john_context (ClaimInfoEvent john_claim) =
      Some (Inr (john_context, PolicyQueryEvent john_queries))"
    by (simp add: generate_policy_queries_def no_declarations_facts(2,3))
  have "dispatch no_declarations_env john_context (PolicyQueryEvent john_queries) =
      Some (Inl IndexError)"
    by (simp add: retrieve_policy_text_def ctx_get_claim_info_def john_ctx
        retrieve_queries_ok [OF no_declarations_facts(4)] no_declarations_facts(5))
  then have "run_steps no_declarations_env john_context (PolicyQueryEvent john_queries) =
      ([PolicyQueryEvent john_queries], Inl (WorkflowRuntimeError IndexError))"
    by (rule run_steps_fail)
  then show ?thesis
    unfolding run_def
    by (simp only: run_steps_next [OF load] run_steps_next [OF gen] fst_conv snd_conv)
qed

text \<open>
  Claim C2 as stated fails: there is no error of a kind of its own for a missing
  declarations page. The run without one ends with \<open>WorkflowRuntimeError\<close>, the error a run
  ends with when any step raises (here next to a run whose claim file cannot be opened), and
  its cause is the \<open>IndexError\<close> of a list index out of range, not passed on as it is.
\<close>

theorem declaration_not_found_counterexample:
  "snd (run no_declarations_env ''data/john.json'') = Inl (WorkflowRuntimeError IndexError) \<and>
   snd (run no_declarations_env ''data/john.json'') \<noteq> Inl IndexError \<and>
   snd (run example_env ''data/nobody.json'') = Inl (WorkflowRuntimeError OSError)"
  by (simp add: no_declarations_run nobody_run)

subsection \<open>A run with an empty query set\<close>

lemma empty_queries_generate:
  "generate_policy_queries empty_queries_env john_context john_claim =
     Inr (john_context, PolicyQueryEvent \<lparr>queries = []\<rparr>)"
  by (simp add: generate_policy_queries_def empty_queries_env_def example_env_def
      PolicyQueries_model_validate_def)

lemma empty_queries_retrieve:
  "dispatch empty_queries_env john_context (PolicyQueryEvent \<lparr>queries = []\<rparr>) =
     Some (Inr (john_context\<lparr>ctx_policy_text := Some ''DECLARATIONS''\<rparr>,
                PolicyMatchedEvent ''DECLARATIONS''))"
  by (simp add: retrieve_policy_text_def ctx_get_claim_info_def john_ctx
      get_declarations_docs_def empty_queries_env_def example_env_def john_claim_def
      dict_values_def node_decl_def Let_def)

lemma empty_queries_recommend:
  "dispatch empty_queries_env (john_context\<lparr>ctx_policy_text := t\<rparr>) (PolicyMatchedEvent p) =
     Some (Inr (john_context\<lparr>ctx_policy_text := t\<rparr>, RecommendationEvent john_recommendation))"
  by (simp add: generate_recommendation_def ctx_get_claim_info_def john_ctx'
      empty_queries_env_def example_env_def PolicyRecommendation_model_validate_def
      validate_str_def validate_optional_float_def validate_float_def john_recommendation_def)

lemma empty_queries_run:
  "run empty_queries_env ''data/john.json'' =
     ([StartEvent ''data/john.json'', ClaimInfoEvent john_claim,
       PolicyQueryEvent \<lparr>queries = []\<rparr>, PolicyMatchedEvent ''DECLARATIONS'',
       RecommendationEvent john_recommendation, DecisionEvent john_decision,
       StopEvent john_decision],
      Inr john_decision)"
proof -
  have parse: "parse_claim empty_queries_env ''data/john.json'' = Inr john_claim"
    by (simp add: parse_claim_def empty_queries_env_def example_env_def john_json_def
        john_claim_def ClaimInfo_model_validate_def validate_str_def validate_float_def
        validate_optional_str_def)
  have gen: "dispatch empty_queries_env john_context (ClaimInfoEvent john_claim) =
      Some (Inr (john_context, PolicyQueryEvent \<lparr>queries = []\<rparr>))"
    by (simp add: empty_queries_generate)
  show ?thesis
    unfolding run_def
    by (simp only: run_steps_next [OF john_load [OF parse]] run_steps_next [OF gen]
        run_steps_next [OF empty_queries_retrieve] run_steps_next [OF empty_queries_recommend]
        run_steps_next [OF john_finalize] run_steps_next [OF john_output] run_steps_stop
        fst_conv snd_conv)
qed

text \<open>
  Claim C6 as stated fails: when the reasoning collaborator returns the empty query set, the
  query generator emits it instead of failing, and the run goes on to a decision made from
  the declarations page alone.
\<close>

theorem generate_policy_queries_empty_counterexample:
  "llm_queries empty_queries_env john_claim = Some (JDict [(''queries'', JList [])]) \<and>
   generate_policy_queries empty_queries_env john_context john_claim =
     Inr (john_context, PolicyQueryEvent \<lparr>queries = []\<rparr>) \<and>
   snd (run empty_queries_env ''data/john.json'') = Inr john_decision"
  by (simp add: empty_queries_generate empty_queries_run) (simp add: empty_queries_env_def)

end
